theory Spec2Isabelle
  imports Complex_Main "HOL-Library.Word" "HOL-Library.Multiset" "HOL-Library.Sublist"
begin

section \<open>Go values used by the decision engine\<close>

subsection \<open>float64\<close>

text \<open>
  A \<open>float64\<close> is a finite value, an infinity or NaN. A finite value is kept as the
  rational number it denotes (every finite binary64 value is one). The two zeros are
  one value \<open>Finite 0\<close>: the program only compares, multiplies, adds, rounds and converts
  its floats, and none of these tells \<open>-0\<close> from \<open>+0\<close> in what the program observes.
\<close>

datatype float64 = Finite rat | PosInf | NegInf | NaN

text \<open>Go's \<open>x < y\<close> on float64: false whenever an operand is NaN.\<close>

fun f64_less :: "float64 \<Rightarrow> float64 \<Rightarrow> bool" where
  "f64_less NaN _ = False"
| "f64_less _ NaN = False"
| "f64_less (Finite a) (Finite b) = (a < b)"
| "f64_less (Finite _) PosInf = True"
| "f64_less (Finite _) NegInf = False"
| "f64_less PosInf _ = False"
| "f64_less NegInf NegInf = False"
| "f64_less NegInf _ = True"

subsection \<open>Rounding an exact result to binary64\<close>

function bit_length :: "nat \<Rightarrow> nat" where
  "bit_length n = (if n = 0 then 0 else Suc (bit_length (n div 2)))"
  by pat_completeness auto
termination
  by (relation "measure id") auto

declare bit_length.simps [simp del]

definition pow2 :: "int \<Rightarrow> rat" where
  "pow2 e = (if 0 \<le> e then 2 ^ nat e else 1 / 2 ^ nat (- e))"

text \<open>\<open>ilog2 a\<close> is the integer \<open>e\<close> with \<open>2^e \<le> a < 2^(e+1)\<close>, for \<open>a > 0\<close>.\<close>

definition ilog2 :: "rat \<Rightarrow> int" where
  "ilog2 a = (if 1 \<le> a then int (bit_length (nat \<lfloor>a\<rfloor>)) - 1
              else - int (bit_length (nat (\<lceil>1 / a\<rceil> - 1))))"

definition round_half_even :: "rat \<Rightarrow> int" where
  "round_half_even x =
     (let f = \<lfloor>x\<rfloor>; d = x - of_int f
      in if d < 1 / 2 then f
         else if 1 / 2 < d then f + 1
         else if even f then f else f + 1)"

text \<open>
  IEEE 754 round-to-nearest, ties-to-even, into binary64: 53 significant bits, least
  normal exponent \<open>-1022\<close> (below it the spacing stays \<open>2^-1074\<close>), overflow to an infinity
  from \<open>2^1024\<close> on.
\<close>

definition round_f64 :: "rat \<Rightarrow> float64" where
  "round_f64 q =
     (if q = 0 then Finite 0
      else let a = \<bar>q\<bar>;
               e = max (ilog2 a) (- 1022);
               u = pow2 (e - 52);
               r = of_int (round_half_even (a / u)) * u
           in if pow2 1024 \<le> r then (if 0 < q then PosInf else NegInf)
              else Finite (sgn q * r))"

text \<open>Go's \<open>x * y\<close> and \<open>x + y\<close> on float64, each rounded on its own (no fused multiply-add).\<close>

fun f64_sign :: "float64 \<Rightarrow> int" where
  "f64_sign (Finite a) = (if a < 0 then - 1 else if a = 0 then 0 else 1)"
| "f64_sign PosInf = 1"
| "f64_sign NegInf = - 1"
| "f64_sign NaN = 0"

fun f64_mul :: "float64 \<Rightarrow> float64 \<Rightarrow> float64" where
  "f64_mul NaN _ = NaN"
| "f64_mul _ NaN = NaN"
| "f64_mul (Finite a) (Finite b) = round_f64 (a * b)"
| "f64_mul x y =
     (let s = f64_sign x * f64_sign y
      in if s = 0 then NaN else if 0 < s then PosInf else NegInf)"

fun f64_add :: "float64 \<Rightarrow> float64 \<Rightarrow> float64" where
  "f64_add NaN _ = NaN"
| "f64_add _ NaN = NaN"
| "f64_add (Finite a) (Finite b) = round_f64 (a + b)"
| "f64_add PosInf NegInf = NaN"
| "f64_add NegInf PosInf = NaN"
| "f64_add PosInf _ = PosInf"
| "f64_add NegInf _ = NegInf"
| "f64_add (Finite _) y = y"

text \<open>\<open>math.Round\<close>: nearest integer, halves away from zero; infinities and NaN are kept.\<close>

fun math_Round :: "float64 \<Rightarrow> float64" where
  "math_Round (Finite a) =
     Finite (of_int (if a < 0 then - \<lfloor>- a + 1 / 2\<rfloor> else \<lfloor>a + 1 / 2\<rfloor>))"
| "math_Round x = x"

subsection \<open>int\<close>

text \<open>
  Go's \<open>int\<close> on a 64-bit target. \<open>float64(n)\<close> rounds the integer to binary64. \<open>int(x)\<close>
  drops the fraction; for a value outside the range of \<open>int\<close>, and for NaN, the language
  leaves the result to the implementation, and the amd64 conversion instruction gives
  the least \<open>int\<close>.
\<close>

type_synonym go_int = "64 word"

definition float64_of_int :: "go_int \<Rightarrow> float64" where
  "float64_of_int n = round_f64 (of_int (sint n))"

definition min_int :: go_int where
  "min_int = word_of_int (- (2 ^ 63))"

fun int_of_float64 :: "float64 \<Rightarrow> go_int" where
  "int_of_float64 (Finite a) =
     (let t = (if 0 \<le> a then \<lfloor>a\<rfloor> else \<lceil>a\<rceil>)
      in if - (2 ^ 63) \<le> t \<and> t < 2 ^ 63 then word_of_int t else min_int)"
| "int_of_float64 _ = min_int"

section \<open>Data model\<close>

text \<open>
  A Go map is \<open>nil\<close> (\<open>None\<close>) or a table. Reading a key that is absent, or reading a nil
  map, gives the zero value; assigning into a nil map panics.
\<close>

datatype go_panic =
    IndexOutOfRange nat nat   \<comment> \<open>index, length\<close>
  | NilMapAssignment
  | TypeAssertionFailed

type_synonym go_map = "(string \<rightharpoonup> go_int) option"

definition map_read :: "go_map \<Rightarrow> string \<Rightarrow> go_int" where
  "map_read m k = (case m of None \<Rightarrow> 0 | Some t \<Rightarrow> (case t k of None \<Rightarrow> 0 | Some v \<Rightarrow> v))"

definition map_write :: "go_map \<Rightarrow> string \<Rightarrow> go_int \<Rightarrow> go_panic + go_map" where
  "map_write m k v = (case m of None \<Rightarrow> Inl NilMapAssignment | Some t \<Rightarrow> Inr (Some (t(k \<mapsto> v))))"

text \<open>The entries of a map, the empty table for nil.\<close>

definition entries :: "go_map \<Rightarrow> (string \<rightharpoonup> go_int)" where
  "entries m = (case m of None \<Rightarrow> Map.empty | Some t \<Rightarrow> t)"

text \<open>The two maps of a World are two objects: a write to one is not a write to the other.\<close>

record World =
  Resources :: go_map
  Powers :: go_map

type_synonym Delta = "float64 list"

text \<open>
  The two maps of a \<open>Change\<close> are only ever ranged over. Each is given as the list of its
  entries in the order the \<open>range\<close> statement visits them, which Go leaves open: a
  statement about every list covers every order.
\<close>

record Change =
  Change_Resources :: "(string \<times> Delta) list"
  Change_Powers :: "(string \<times> Delta) list"

record Choice =
  Choice_Description :: string
  Choice_Change :: Change

record Decision =
  Description :: string
  Choices :: "Choice list"

subsection \<open>Guard\<close>

text \<open>
  An error value is opaque to the program: it is only passed on. \<open>expr.Run\<close> belongs to the
  expression library; a \<open>Guard\<close> is given by what \<open>expr.Run\<close> returns for its node on each
  World: an error, or a value that is a bool or something else.
\<close>

datatype go_error = Error string

datatype expr_value = BoolVal bool | OtherVal

type_synonym Guard = "World \<Rightarrow> go_error + expr_value"

text \<open>How a call ends other than by its regular result: an error return or a panic.\<close>

datatype fault = Failed go_error | Panicked go_panic

definition Pass :: "Guard \<Rightarrow> World \<Rightarrow> fault + bool" where
  "Pass g world =
     (case g world of
        Inl err \<Rightarrow> Inl (Failed err)
      | Inr out \<Rightarrow> (case out of BoolVal b \<Rightarrow> Inr b | OtherVal \<Rightarrow> Inl (Panicked TypeAssertionFailed)))"

subsection \<open>Rule\<close>

record Rule =
  Guard :: Guard
  Weight :: float64
  Decision :: Decision

definition Evaluate :: "Rule \<Rightarrow> World \<Rightarrow> fault + float64" where
  "Evaluate r world =
     (case Pass (Guard r) world of
        Inl err \<Rightarrow> Inl err
      | Inr pass \<Rightarrow> if \<not> pass then Inr (Finite 0) else Inr (Weight r))"

subsection \<open>Scenario and decision engine\<close>

record Scenario =
  Rules :: "Rule list"

record CandidateDecision =
  Candidate_Weight :: float64
  Candidate_Decision :: Decision

type_synonym CandidateRanking = "CandidateDecision list"

definition Len :: "CandidateRanking \<Rightarrow> nat" where
  "Len c = length c"

definition Swap :: "CandidateRanking \<Rightarrow> nat \<Rightarrow> nat \<Rightarrow> CandidateRanking" where
  "Swap c i j = c[i := c ! j, j := c ! i]"

definition Less :: "CandidateRanking \<Rightarrow> nat \<Rightarrow> nat \<Rightarrow> bool" where
  "Less c i j = f64_less (Candidate_Weight (c ! i)) (Candidate_Weight (c ! j))"

text \<open>
  The interface \<open>Rand\<close> has the one method \<open>Float64\<close>; a source of state type \<open>'s\<close> is the
  function that returns the draw and the source's next state.
\<close>

type_synonym 's Rand = "'s \<Rightarrow> float64 \<times> 's"

text \<open>The first \<open>n\<close> draws of a source.\<close>

fun draws :: "'s Rand \<Rightarrow> 's \<Rightarrow> nat \<Rightarrow> float64 list" where
  "draws r st 0 = []"
| "draws r st (Suc n) = (case r st of (x, st') \<Rightarrow> x # draws r st' n)"

text \<open>The first loop of \<open>Decisions\<close>: one candidate per rule, in order; the first failure ends the call.\<close>

fun candidates_of :: "Rule list \<Rightarrow> World \<Rightarrow> fault + CandidateDecision list" where
  "candidates_of [] world = Inr []"
| "candidates_of (rule # rules) world =
     (case Evaluate rule world of
        Inl err \<Rightarrow> Inl err
      | Inr weight \<Rightarrow>
          (case candidates_of rules world of
             Inl err \<Rightarrow> Inl err
           | Inr cs \<Rightarrow>
               Inr (\<lparr>Candidate_Weight = weight, Candidate_Decision = Decision rule\<rparr> # cs)))"

text \<open>
  The second loop: one draw per candidate visited; an accepted decision is appended, and
  the loop is left once the list is longer than \<open>maxNumDecisions\<close>.
\<close>

fun sample :: "'s Rand \<Rightarrow> 's \<Rightarrow> CandidateDecision list \<Rightarrow> go_int \<Rightarrow> Decision list
    \<Rightarrow> Decision list \<times> 's" where
  "sample r st [] maxNumDecisions decisions = (decisions, st)"
| "sample r st (candidate # rest) maxNumDecisions decisions =
     (case r st of (x, st') \<Rightarrow>
        if f64_less x (Candidate_Weight candidate)
        then (let decisions' = decisions @ [Candidate_Decision candidate]
              in if sint maxNumDecisions < int (length decisions') then (decisions', st')
                 else sample r st' rest maxNumDecisions decisions')
        else sample r st' rest maxNumDecisions decisions)"

text \<open>
  \<open>sort.Sort\<close> is the Go library's: it is the parameter \<open>srt\<close>, the slice after sorting as a
  function of the slice before. The result of the call and the source's state after it
  are returned.
\<close>

definition Decisions :: "(CandidateRanking \<Rightarrow> CandidateRanking) \<Rightarrow> Scenario \<Rightarrow> 's Rand \<Rightarrow> 's
    \<Rightarrow> World \<Rightarrow> go_int \<Rightarrow> (fault + Decision list) \<times> 's" where
  "Decisions srt s r st world maxNumDecisions =
     (case candidates_of (Rules s) world of
        Inl err \<Rightarrow> (Inl err, st)
      | Inr candidates \<Rightarrow>
          (case sample r st (srt candidates) maxNumDecisions [] of
             (decisions, st') \<Rightarrow> (Inr decisions, st')))"

text \<open>
  What the library promises of \<open>sort.Sort\<close> on a slice: the result is a rearrangement of
  it, and, when \<open>Less\<close> orders the elements (no weight is NaN), no element is \<open>Less\<close> than
  one before it.
\<close>

definition ascending :: "CandidateRanking \<Rightarrow> bool" where
  "ascending c = (\<forall>j < Len c. \<forall>i < j. \<not> Less c j i)"

definition sort_contract :: "(CandidateRanking \<Rightarrow> CandidateRanking) \<Rightarrow> CandidateRanking \<Rightarrow> bool" where
  "sort_contract srt c =
     (mset (srt c) = mset c \<and> (NaN \<notin> Candidate_Weight ` set c \<longrightarrow> ascending (srt c)))"

text \<open>
  The insertion sort that \<open>sort.Sort\<close> runs on a short slice: each element in turn is
  swapped towards the front while it is \<open>Less\<close> than the element before it. \<open>sift\<close> works
  on the sorted front part held back to front.
\<close>

fun sift :: "CandidateDecision \<Rightarrow> CandidateDecision list \<Rightarrow> CandidateDecision list" where
  "sift x [] = [x]"
| "sift x (y # ys) =
     (if f64_less (Candidate_Weight x) (Candidate_Weight y) then y # sift x ys else x # y # ys)"

definition insertionSort :: "CandidateRanking \<Rightarrow> CandidateRanking" where
  "insertionSort c = rev (foldl (\<lambda>front x. sift x front) [] c)"

subsection \<open>World mutation\<close>

definition updatedValue :: "go_int \<Rightarrow> Delta \<Rightarrow> go_panic + go_int" where
  "updatedValue old delta =
     (if length delta \<le> 0 then Inl (IndexOutOfRange 0 (length delta))
      else if length delta \<le> 1 then Inl (IndexOutOfRange 1 (length delta))
      else Inr (int_of_float64 (math_Round
             (f64_add (f64_mul (delta ! 0) (float64_of_int old)) (delta ! 1)))))"

text \<open>
  One \<open>range\<close> loop of \<open>Apply\<close> over the entries of a Change map, on one map of the World:
  the panic that ended it, if any, and the map as it is then.
\<close>

fun apply_entries :: "go_map \<Rightarrow> (string \<times> Delta) list \<Rightarrow> go_panic option \<times> go_map" where
  "apply_entries m [] = (None, m)"
| "apply_entries m ((name, delta) # rest) =
     (case updatedValue (map_read m name) delta of
        Inl p \<Rightarrow> (Some p, m)
      | Inr v \<Rightarrow>
          (case map_write m name v of
             Inl p \<Rightarrow> (Some p, m)
           | Inr m' \<Rightarrow> apply_entries m' rest))"

text \<open>
  \<open>Apply\<close> changes the World in place and returns an error, or panics: the model returns
  how the call ended (\<open>Inr None\<close> is the return of a nil error) and the World as it is then.
\<close>

definition Apply :: "World \<Rightarrow> Choice \<Rightarrow> (go_panic + go_error option) \<times> World" where
  "Apply w choice =
     (case apply_entries (Resources w) (Change_Resources (Choice_Change choice)) of
        (Some p, m) \<Rightarrow> (Inl p, w\<lparr>Resources := m\<rparr>)
      | (None, m) \<Rightarrow>
          (case apply_entries (Powers w) (Change_Powers (Choice_Change choice)) of
             (Some p, m') \<Rightarrow> (Inl p, w\<lparr>Resources := m, Powers := m'\<rparr>)
           | (None, m') \<Rightarrow> (Inr None, w\<lparr>Resources := m, Powers := m'\<rparr>)))"

subsection \<open>The example of the program's \<open>main\<close>\<close>

definition putsch_world :: World where
  "putsch_world =
     \<lparr>Resources = Some [''Money'' \<mapsto> 4000],
      Powers = Some [''Military'' \<mapsto> 90, ''Legislation'' \<mapsto> 10]\<rparr>"

text \<open>
  The guard \<open>World.Resources.Money > 1000 and World.Powers.Military >= 90\<close> on a World
  that has the keys it reads. The expression library is not part of the program: on a
  World that lacks a key the guard reads, its evaluation is taken to fail with an error.
\<close>

definition putsch_guard :: Guard where
  "putsch_guard w =
     (case entries (Resources w) ''Money'' of
        None \<Rightarrow> Inl (Error ''Money'')
      | Some money \<Rightarrow>
          if \<not> 1000 < sint money then Inr (BoolVal False)
          else (case entries (Powers w) ''Military'' of
                  None \<Rightarrow> Inl (Error ''Military'')
                | Some military \<Rightarrow> Inr (BoolVal (90 \<le> sint military))))"

definition choice_A :: Choice where
  "choice_A =
     \<lparr>Choice_Description = ''Accept'',
      Choice_Change =
        \<lparr>Change_Resources = [(''Money'', [Finite (1 / 2), Finite 0])],
         Change_Powers = [(''Legislation'', [Finite 0, Finite 100])]\<rparr>\<rparr>"

definition make_putsch :: Decision where
  "make_putsch = \<lparr>Description = ''Make putsch'', Choices = [choice_A]\<rparr>"

definition putsch_rule :: Rule where
  "putsch_rule = \<lparr>Guard = putsch_guard, Weight = Finite 1, Decision = make_putsch\<rparr>"

text \<open>A randomness source that always returns 0.0.\<close>

definition zero_rand :: "unit Rand" where
  "zero_rand st = (Finite 0, st)"

text \<open>The second rule of \<open>main\<close>: guard \<open>true\<close>, weight 1.0, one choice with an empty Change.\<close>

definition quit_choice :: Choice where
  "quit_choice =
     \<lparr>Choice_Description = ''Accept'',
      Choice_Change = \<lparr>Change_Resources = [], Change_Powers = []\<rparr>\<rparr>"

definition quit_decision :: Decision where
  "quit_decision = \<lparr>Description = ''Quit'', Choices = [quit_choice]\<rparr>"

definition quit_rule :: Rule where
  "quit_rule = \<lparr>Guard = (\<lambda>w. Inr (BoolVal True)), Weight = Finite 1, Decision = quit_decision\<rparr>"

subsection \<open>Further inputs used to run the definitions\<close>

text \<open>A World with too little money for the putsch, and a World whose maps are nil.\<close>

definition poor_world :: World where
  "poor_world =
     \<lparr>Resources = Some [''Money'' \<mapsto> 500],
      Powers = Some [''Military'' \<mapsto> 90, ''Legislation'' \<mapsto> 10]\<rparr>"

definition bare_world :: World where
  "bare_world = \<lparr>Resources = None, Powers = None\<rparr>"



text \<open>An always-applicable rule whose weight is NaN.\<close>

definition nan_decision :: Decision where
  "nan_decision = \<lparr>Description = ''Never'', Choices = [quit_choice]\<rparr>"

definition nan_rule :: Rule where
  "nan_rule = \<lparr>Guard = (\<lambda>w. Inr (BoolVal True)), Weight = NaN, Decision = nan_decision\<rparr>"

text \<open>A source that also returns 0.0 on every draw, and counts its draws.\<close>

definition tick_rand :: "nat Rand" where
  "tick_rand n = (Finite 0, Suc n)"



text \<open>A Choice whose second resource delta has one component only.\<close>

definition short_resource_choice :: Choice where
  "short_resource_choice =
     \<lparr>Choice_Description = ''Accept'',
      Choice_Change =
        \<lparr>Change_Resources = [(''Money'', [Finite (1 / 2), Finite 0]), (''Grain'', [Finite 2])],
         Change_Powers = [(''Legislation'', [Finite 0, Finite 100])]\<rparr>\<rparr>"

subsection \<open>Notions used in the statements\<close>

text \<open>The keys of a Go map are distinct.\<close>

definition wf_Change :: "Change \<Rightarrow> bool" where
  "wf_Change c = (distinct (map fst (Change_Resources c)) \<and> distinct (map fst (Change_Powers c)))"

text \<open>
  The table that results from a map \<open>m\<close> once each entry of \<open>es\<close> has been applied to it:
  a name that \<open>es\<close> gives a delta has its old value (0 if it had none) put through
  \<open>updatedValue\<close> with that delta, every other name is as in \<open>m\<close>.
\<close>

definition entry_after :: "go_map \<Rightarrow> (string \<times> Delta) list \<Rightarrow> string \<Rightarrow> go_int option" where
  "entry_after m es k =
     (case map_of es k of
        None \<Rightarrow> entries m k
      | Some d \<Rightarrow> (case updatedValue (map_read m k) d of Inl p \<Rightarrow> entries m k | Inr v \<Rightarrow> Some v))"


text \<open>A draw that lies in \<open>[0, 1)\<close>.\<close>

definition unit_draw :: "float64 \<Rightarrow> bool" where
  "unit_draw x = (case x of Finite q \<Rightarrow> 0 \<le> q \<and> q < 1 | _ \<Rightarrow> False)"


text \<open>The front part of the insertion sort, back to front: no element is less than a later one.\<close>

definition descending :: "CandidateDecision list \<Rightarrow> bool" where
  "descending ys = sorted_wrt (\<lambda>a b. \<not> f64_less (Candidate_Weight a) (Candidate_Weight b)) ys"

section \<open>Auxiliary facts\<close>

subsection \<open>Rounding at the values of the example\<close>

lemma round_f64_eval:
  assumes "q \<noteq> 0" and "max (ilog2 \<bar>q\<bar>) (- 1022) = e"
    and "round_half_even (\<bar>q\<bar> / pow2 (e - 52)) = m"
    and "of_int m * pow2 (e - 52) = r" and "\<not> pow2 1024 \<le> r"
  shows "round_f64 q = Finite (sgn q * r)"
  using assms by (simp add: round_f64_def Let_def)

lemma pow2_1024_gt: "\<not> pow2 1024 \<le> 4000" "\<not> pow2 1024 \<le> 2000" "\<not> pow2 1024 \<le> 1000"
  "\<not> pow2 1024 \<le> 100" "\<not> pow2 1024 \<le> 10"
  by (simp_all add: pow2_def)

lemma round_f64_4000: "round_f64 4000 = Finite 4000"
proof -
  have e: "max (ilog2 \<bar>4000\<bar>) (- 1022) = 11"
    by (simp add: ilog2_def bit_length.simps)
  have m: "round_half_even (\<bar>4000\<bar> / pow2 (11 - 52)) = 4000 * 2 ^ 41"
    by (simp add: pow2_def round_half_even_def Let_def)
  have r: "of_int (4000 * 2 ^ 41) * pow2 (11 - 52) = 4000"
    by (simp add: pow2_def)
  have "round_f64 4000 = Finite (sgn 4000 * 4000)"
    by (rule round_f64_eval [OF _ e m r pow2_1024_gt(1)]) simp
  then show ?thesis by simp
qed

lemma round_f64_2000: "round_f64 2000 = Finite 2000"
proof -
  have e: "max (ilog2 \<bar>2000\<bar>) (- 1022) = 10"
    by (simp add: ilog2_def bit_length.simps)
  have m: "round_half_even (\<bar>2000\<bar> / pow2 (10 - 52)) = 2000 * 2 ^ 42"
    by (simp add: pow2_def round_half_even_def Let_def)
  have r: "of_int (2000 * 2 ^ 42) * pow2 (10 - 52) = 2000"
    by (simp add: pow2_def)
  have "round_f64 2000 = Finite (sgn 2000 * 2000)"
    by (rule round_f64_eval [OF _ e m r pow2_1024_gt(2)]) simp
  then show ?thesis by simp
qed

lemma round_f64_1000: "round_f64 1000 = Finite 1000"
proof -
  have e: "max (ilog2 \<bar>1000\<bar>) (- 1022) = 9"
    by (simp add: ilog2_def bit_length.simps)
  have m: "round_half_even (\<bar>1000\<bar> / pow2 (9 - 52)) = 1000 * 2 ^ 43"
    by (simp add: pow2_def round_half_even_def Let_def)
  have r: "of_int (1000 * 2 ^ 43) * pow2 (9 - 52) = 1000"
    by (simp add: pow2_def)
  have "round_f64 1000 = Finite (sgn 1000 * 1000)"
    by (rule round_f64_eval [OF _ e m r pow2_1024_gt(3)]) simp
  then show ?thesis by simp
qed

lemma round_f64_100: "round_f64 100 = Finite 100"
proof -
  have e: "max (ilog2 \<bar>100\<bar>) (- 1022) = 6"
    by (simp add: ilog2_def bit_length.simps)
  have m: "round_half_even (\<bar>100\<bar> / pow2 (6 - 52)) = 100 * 2 ^ 46"
    by (simp add: pow2_def round_half_even_def Let_def)
  have r: "of_int (100 * 2 ^ 46) * pow2 (6 - 52) = 100"
    by (simp add: pow2_def)
  have "round_f64 100 = Finite (sgn 100 * 100)"
    by (rule round_f64_eval [OF _ e m r pow2_1024_gt(4)]) simp
  then show ?thesis by simp
qed

lemma round_f64_10: "round_f64 10 = Finite 10"
proof -
  have e: "max (ilog2 \<bar>10\<bar>) (- 1022) = 3"
    by (simp add: ilog2_def bit_length.simps)
  have m: "round_half_even (\<bar>10\<bar> / pow2 (3 - 52)) = 10 * 2 ^ 49"
    by (simp add: pow2_def round_half_even_def Let_def)
  have r: "of_int (10 * 2 ^ 49) * pow2 (3 - 52) = 10"
    by (simp add: pow2_def)
  have "round_f64 10 = Finite (sgn 10 * 10)"
    by (rule round_f64_eval [OF _ e m r pow2_1024_gt(5)]) simp
  then show ?thesis by simp
qed

lemma round_f64_0: "round_f64 0 = Finite 0"
  by (simp add: round_f64_def)

lemma math_Round_of_int: "math_Round (Finite (of_int n)) = Finite (of_int n)"
proof -
  have "\<lfloor>(of_int n :: rat) + 1 / 2\<rfloor> = n"
    by (simp add: floor_eq_iff)
  moreover have "\<lfloor>- (of_int n :: rat) + 1 / 2\<rfloor> = - n"
    by (simp add: floor_eq_iff)
  ultimately show ?thesis by simp
qed

lemma math_Round_numeral: "math_Round (Finite (numeral k)) = Finite (numeral k)"
  using math_Round_of_int [of "numeral k"] by simp

lemma updatedValue_half_4000: "updatedValue 4000 [Finite (1 / 2), Finite 0] = Inr 2000"
  by (simp add: updatedValue_def float64_of_int_def round_f64_4000 round_f64_2000
      math_Round_numeral del: math_Round.simps(1))

lemma updatedValue_half_2000: "updatedValue 2000 [Finite (1 / 2), Finite 0] = Inr 1000"
  by (simp add: updatedValue_def float64_of_int_def round_f64_2000 round_f64_1000
      math_Round_numeral del: math_Round.simps(1))

lemma updatedValue_set_100: "updatedValue 10 [Finite 0, Finite 100] = Inr 100"
  by (simp add: updatedValue_def float64_of_int_def round_f64_10 round_f64_0 round_f64_100
      math_Round_numeral del: math_Round.simps(1))


lemma updatedValue_keep_100: "updatedValue 100 [Finite 0, Finite 100] = Inr 100"
  by (simp add: updatedValue_def float64_of_int_def round_f64_0 round_f64_100
      math_Round_numeral del: math_Round.simps(1))

lemma round_f64_1: "round_f64 1 = Finite 1"
proof -
  have e: "max (ilog2 \<bar>1\<bar>) (- 1022) = 0"
    by (simp add: ilog2_def bit_length.simps)
  have m: "round_half_even (\<bar>1\<bar> / pow2 (0 - 52)) = 2 ^ 52"
    by (simp add: pow2_def round_half_even_def Let_def)
  have r: "of_int (2 ^ 52) * pow2 (0 - 52) = 1"
    by (simp add: pow2_def)
  have p: "\<not> pow2 1024 \<le> 1" by (simp add: pow2_def)
  have "round_f64 1 = Finite (sgn 1 * 1)"
    by (rule round_f64_eval [OF _ e m r p]) simp
  then show ?thesis by simp
qed

lemma round_f64_half: "round_f64 (1 / 2) = Finite (1 / 2)"
proof -
  have e: "max (ilog2 \<bar>1 / 2\<bar>) (- 1022) = - 1"
    by (simp add: ilog2_def bit_length.simps)
  have m: "round_half_even (\<bar>1 / 2\<bar> / pow2 (- 1 - 52)) = 2 ^ 52"
    by (simp add: pow2_def round_half_even_def Let_def)
  have r: "of_int (2 ^ 52) * pow2 (- 1 - 52) = 1 / 2"
    by (simp add: pow2_def)
  have p: "\<not> pow2 1024 \<le> 1 / 2" by (simp add: pow2_def)
  have "round_f64 (1 / 2) = Finite (sgn (1 / 2) * (1 / 2))"
    by (rule round_f64_eval [OF _ e m r p]) simp
  then show ?thesis by simp
qed

lemma round_f64_minus: "round_f64 (- q) = (case round_f64 q of Finite r \<Rightarrow> Finite (- r) | PosInf \<Rightarrow> NegInf | NegInf \<Rightarrow> PosInf | NaN \<Rightarrow> NaN)"
  by (auto simp: round_f64_def Let_def)

lemma ceiling_minus_one_rat: "\<lceil>- 1 :: rat\<rceil> = - 1"
  using ceiling_of_int [of "- 1", where ?'a = rat] by simp

lemma updatedValue_tie_up: "updatedValue 1 [Finite (1 / 2), Finite 0] = Inr 1"
  by (simp add: updatedValue_def float64_of_int_def round_f64_1 round_f64_half floor_eq_iff)

lemma updatedValue_tie_down: "updatedValue (- 1) [Finite (1 / 2), Finite 0] = Inr (- 1)"
  by (simp add: updatedValue_def float64_of_int_def round_f64_1 round_f64_half round_f64_minus
      floor_eq_iff ceiling_minus_one_rat)



subsection \<open>Comparison of floats\<close>

lemma f64_less_asym: "f64_less a b \<Longrightarrow> \<not> f64_less b a"
  by (cases a; cases b) auto

lemma f64_not_less_trans:
  "a \<noteq> NaN \<Longrightarrow> b \<noteq> NaN \<Longrightarrow> c \<noteq> NaN \<Longrightarrow> \<not> f64_less a b \<Longrightarrow> \<not> f64_less b c \<Longrightarrow> \<not> f64_less a c"
  by (cases a; cases b; cases c) auto


lemma f64_less_NaN: "\<not> f64_less x NaN"
  by (cases x) simp_all

lemma unit_draw_less: "unit_draw x \<Longrightarrow> f64_less x y \<Longrightarrow> f64_less (Finite 0) y"
  by (cases x; cases y) (auto simp: unit_draw_def)

subsection \<open>The insertion sort keeps the library's promise\<close>

lemma set_sift: "set (sift x ys) = insert x (set ys)"
  by (induction ys) auto

lemma mset_sift: "mset (sift x ys) = add_mset x (mset ys)"
  by (induction ys) auto

lemma descending_sift:
  "descending ys \<Longrightarrow> Candidate_Weight x \<noteq> NaN \<Longrightarrow> NaN \<notin> Candidate_Weight ` set ys
   \<Longrightarrow> descending (sift x ys)"
proof (induction ys)
  case Nil
  then show ?case by (simp add: descending_def)
next
  case (Cons y ys)
  show ?case
  proof (cases "f64_less (Candidate_Weight x) (Candidate_Weight y)")
    case True
    from Cons have "descending (sift x ys)" by (simp add: descending_def)
    with True Cons.prems show ?thesis
      by (auto simp: descending_def set_sift dest: f64_less_asym)
  next
    case False
    have "\<not> f64_less (Candidate_Weight x) (Candidate_Weight z)" if "z \<in> set ys" for z
    proof -
      from that Cons.prems have "\<not> f64_less (Candidate_Weight y) (Candidate_Weight z)"
        by (simp add: descending_def)
      moreover from that Cons.prems have "Candidate_Weight z \<noteq> NaN" "Candidate_Weight y \<noteq> NaN"
        by force+
      ultimately show ?thesis
        using False Cons.prems(2) f64_not_less_trans by blast
    qed
    with False Cons.prems show ?thesis by (simp add: descending_def)
  qed
qed

lemma foldl_sift_mset: "mset (foldl (\<lambda>front x. sift x front) acc c) = mset acc + mset c"
  by (induction c arbitrary: acc) (simp_all add: mset_sift)

lemma foldl_sift_descending:
  "descending acc \<Longrightarrow> NaN \<notin> Candidate_Weight ` set acc \<Longrightarrow> NaN \<notin> Candidate_Weight ` set c
   \<Longrightarrow> descending (foldl (\<lambda>front x. sift x front) acc c)"
proof (induction c arbitrary: acc)
  case Nil
  then show ?case by simp
next
  case (Cons x c)
  have "descending (sift x acc)"
    using Cons.prems by (intro descending_sift) auto
  moreover have "NaN \<notin> Candidate_Weight ` set (sift x acc)"
    using Cons.prems by (auto simp: set_sift)
  ultimately show ?case
    using Cons.IH [of "sift x acc"] Cons.prems by simp
qed

lemma ascending_iff:
  "ascending c \<longleftrightarrow> sorted_wrt (\<lambda>a b. \<not> f64_less (Candidate_Weight b) (Candidate_Weight a)) c"
  by (auto simp: ascending_def Len_def Less_def sorted_wrt_iff_nth_less)

lemma insertionSort_contract: "sort_contract insertionSort c"
proof -
  have "mset (insertionSort c) = mset c"
    by (simp add: insertionSort_def foldl_sift_mset)
  moreover have "ascending (insertionSort c)" if "NaN \<notin> Candidate_Weight ` set c"
  proof -
    have "descending (foldl (\<lambda>front x. sift x front) [] c)"
      using that by (intro foldl_sift_descending) (simp_all add: descending_def)
    then show ?thesis
      by (simp add: ascending_iff insertionSort_def descending_def sorted_wrt_rev)
  qed
  ultimately show ?thesis by (simp add: sort_contract_def)
qed

subsection \<open>The two loops of \<open>Decisions\<close>\<close>

lemma candidates_of_fails:
  "Evaluate r w = Inl e \<Longrightarrow> \<forall>p \<in> set pre. \<exists>x. Evaluate p w = Inr x
   \<Longrightarrow> candidates_of (pre @ r # post) w = Inl e"
  by (induction pre) (auto split: sum.splits)

lemma candidates_of_Inl_iff:
  "(\<exists>e. candidates_of rs w = Inl e) \<longleftrightarrow> (\<exists>r \<in> set rs. \<exists>e. Evaluate r w = Inl e)"
  by (induction rs) (auto split: sum.splits)

lemma candidates_of_origin:
  "candidates_of rs w = Inr cs \<Longrightarrow> c \<in> set cs \<Longrightarrow>
   \<exists>r \<in> set rs. Evaluate r w = Inr (Candidate_Weight c) \<and> Candidate_Decision c = Decision r"
  by (induction rs arbitrary: cs) (auto split: sum.splits)

lemma Evaluate_weight:
  "Evaluate r w = Inr x \<Longrightarrow>
   (Guard r w = Inr (BoolVal False) \<and> x = Finite 0) \<or> (Guard r w = Inr (BoolVal True) \<and> x = Weight r)"
  by (auto simp: Evaluate_def Pass_def split: sum.splits expr_value.splits if_splits)

lemma sample_length:
  "int (length acc) \<le> sint k \<Longrightarrow> length (fst (sample r st cs k acc)) \<le> nat (sint k) + 1"
proof (induction cs arbitrary: st acc)
  case Nil
  then show ?case by simp
next
  case (Cons c cs)
  obtain x st' where rs: "r st = (x, st')" by (cases "r st")
  show ?case
  proof (cases "f64_less x (Candidate_Weight c)")
    case False
    with rs Cons show ?thesis by simp
  next
    case True
    show ?thesis
    proof (cases "sint k < int (length acc) + 1")
      case True
      with rs \<open>f64_less x (Candidate_Weight c)\<close> Cons.prems show ?thesis
        by (simp add: Let_def)
    next
      case False
      then have "int (length (acc @ [Candidate_Decision c])) \<le> sint k" by simp
      from Cons.IH [OF this, of st'] rs \<open>f64_less x (Candidate_Weight c)\<close> False
      show ?thesis by (simp add: Let_def)
    qed
  qed
qed

lemma sample_draws:
  "draws r1 s1 (length cs) = draws r2 s2 (length cs) \<Longrightarrow>
   fst (sample r1 s1 cs k acc) = fst (sample r2 s2 cs k acc)"
proof (induction cs arbitrary: s1 s2 acc)
  case Nil
  then show ?case by simp
next
  case (Cons c cs)
  obtain x1 t1 where r1: "r1 s1 = (x1, t1)" by (cases "r1 s1")
  obtain x2 t2 where r2: "r2 s2 = (x2, t2)" by (cases "r2 s2")
  from Cons.prems r1 r2 have x: "x1 = x2" and d: "draws r1 t1 (length cs) = draws r2 t2 (length cs)"
    by simp_all
  from Cons.IH [OF d] r1 r2 x show ?case by (simp add: Let_def)
qed

text \<open>
  What the second loop returns: the decisions of a subsequence of the candidates it
  walked, in their order, each accepted against a draw below its weight.
\<close>

lemma sample_accepts:
  "\<exists>acc'. subseq acc' cs \<and> fst (sample r st cs k acc) = acc @ map Candidate_Decision acc' \<and>
     (\<forall>c \<in> set acc'. \<exists>x \<in> set (draws r st (length cs)). f64_less x (Candidate_Weight c))"
proof (induction cs arbitrary: st acc)
  case Nil
  then show ?case by simp
next
  case (Cons c cs)
  obtain x st' where rs: "r st = (x, st')" by (cases "r st")
  show ?case
  proof (cases "f64_less x (Candidate_Weight c)")
    case False
    from Cons.IH [of st' acc] obtain acc' where
      a: "subseq acc' cs" "fst (sample r st' cs k acc) = acc @ map Candidate_Decision acc'"
         "\<forall>c \<in> set acc'. \<exists>x \<in> set (draws r st' (length cs)). f64_less x (Candidate_Weight c)"
      by blast
    show ?thesis
      apply (rule exI [of _ acc'])
      using a rs False by auto
  next
    case True
    show ?thesis
    proof (cases "sint k < int (length acc) + 1")
      case stop: True
      show ?thesis
        apply (rule exI [of _ "[c]"])
        using rs True stop by (auto simp: Let_def)
    next
      case False
      from Cons.IH [of st' "acc @ [Candidate_Decision c]"] obtain acc' where
        a: "subseq acc' cs"
           "fst (sample r st' cs k (acc @ [Candidate_Decision c])) =
              (acc @ [Candidate_Decision c]) @ map Candidate_Decision acc'"
           "\<forall>c \<in> set acc'. \<exists>x \<in> set (draws r st' (length cs)). f64_less x (Candidate_Weight c)"
        by blast
      show ?thesis
        apply (rule exI [of _ "c # acc'"])
        using a rs True False by (auto simp: Let_def)
    qed
  qed
qed

lemma Decisions_Inr:
  "fst (Decisions srt s r st w k) = Inr ds \<Longrightarrow>
   \<exists>cs. candidates_of (Rules s) w = Inr cs \<and> ds = fst (sample r st (srt cs) k [])"
  by (auto simp: Decisions_def split: sum.splits prod.splits)



lemma sort_contract_single: "sort_contract srt [c] \<Longrightarrow> srt [c] = [c]"
  by (simp add: sort_contract_def)


lemma draws_zero_rand: "draws zero_rand st n = replicate n (Finite 0)"
  by (induction n) (simp_all add: zero_rand_def)

lemma draws_tick_rand: "draws tick_rand st n = replicate n (Finite 0)"
  by (induction n arbitrary: st) (simp_all add: tick_rand_def)

subsection \<open>The loops of \<open>Apply\<close>\<close>

lemma apply_entries_frame:
  "name \<notin> fst ` set es \<Longrightarrow> entries (snd (apply_entries m es)) name = entries m name"
proof (induction es arbitrary: m)
  case Nil
  then show ?case by simp
next
  case (Cons e es)
  obtain n d where e: "e = (n, d)" by (cases e)
  with Cons.prems have ne: "n \<noteq> name" and rest: "name \<notin> fst ` set es" by auto
  show ?case
  proof (cases "updatedValue (map_read m n) d")
    case (Inl p)
    with e show ?thesis by simp
  next
    case (Inr v)
    show ?thesis
    proof (cases m)
      case None
      with e Inr show ?thesis by (simp add: map_write_def)
    next
      case (Some t)
      with e Inr Cons.IH [OF rest, of "Some (t(n \<mapsto> v))"] ne show ?thesis
        by (simp add: map_write_def entries_def)
    qed
  qed
qed





subsection \<open>Running the examples\<close>

lemma putsch_true: "Evaluate putsch_rule putsch_world = Inr (Finite 1)"
  by (simp add: Evaluate_def Pass_def putsch_rule_def putsch_guard_def putsch_world_def entries_def)

lemma putsch_false: "Evaluate putsch_rule poor_world = Inr (Finite 0)"
  by (simp add: Evaluate_def Pass_def putsch_rule_def putsch_guard_def poor_world_def entries_def)

lemma putsch_fails: "Evaluate putsch_rule bare_world = Inl (Failed (Error ''Money''))"
  by (simp add: Evaluate_def Pass_def putsch_rule_def putsch_guard_def bare_world_def entries_def)

lemma quit_true: "Evaluate quit_rule w = Inr (Finite 1)"
  by (simp add: Evaluate_def Pass_def quit_rule_def)


lemma Decision_putsch_rule: "Decision putsch_rule = make_putsch"
  by (simp add: putsch_rule_def)

lemma Decision_quit_rule: "Decision quit_rule = quit_decision"
  by (simp add: quit_rule_def)


lemma run_putsch_zero:
  "Decisions insertionSort \<lparr>Rules = [putsch_rule]\<rparr> zero_rand () putsch_world k = (Inr [make_putsch], ())"
  by (simp add: Decisions_def putsch_true insertionSort_def zero_rand_def Decision_putsch_rule Let_def)

lemma run_putsch_tick:
  "Decisions insertionSort \<lparr>Rules = [putsch_rule]\<rparr> tick_rand 0 putsch_world k = (Inr [make_putsch], 1)"
  by (simp add: Decisions_def putsch_true insertionSort_def tick_rand_def Decision_putsch_rule Let_def)

lemma run_two_cap0:
  "Decisions insertionSort \<lparr>Rules = [quit_rule, putsch_rule]\<rparr> zero_rand () putsch_world 0
     = (Inr [quit_decision], ())"
  by (simp add: Decisions_def putsch_true quit_true insertionSort_def zero_rand_def
      Decision_putsch_rule Decision_quit_rule Let_def)


lemma run_poor:
  "Decisions insertionSort \<lparr>Rules = [putsch_rule, quit_rule]\<rparr> zero_rand () poor_world 3
     = (Inr [quit_decision], ())"
  by (simp add: Decisions_def putsch_false quit_true insertionSort_def zero_rand_def
      Decision_putsch_rule Decision_quit_rule Let_def)

lemma make_putsch_not_quit: "make_putsch \<noteq> quit_decision"
  by (simp add: make_putsch_def quit_decision_def)

lemma Apply_choice_A:
  "Apply putsch_world choice_A =
     (Inr None, \<lparr>Resources = Some [''Money'' \<mapsto> 2000],
                 Powers = Some [''Military'' \<mapsto> 90, ''Legislation'' \<mapsto> 100]\<rparr>)"
  by (simp add: Apply_def putsch_world_def choice_A_def map_read_def map_write_def
      updatedValue_half_4000 updatedValue_set_100)

lemma Apply_choice_A_twice:
  "Apply \<lparr>Resources = Some [''Money'' \<mapsto> 2000],
          Powers = Some [''Military'' \<mapsto> 90, ''Legislation'' \<mapsto> 100]\<rparr> choice_A =
     (Inr None, \<lparr>Resources = Some [''Money'' \<mapsto> 1000],
                 Powers = Some [''Military'' \<mapsto> 90, ''Legislation'' \<mapsto> 100]\<rparr>)"
  by (simp add: Apply_def choice_A_def map_read_def map_write_def
      updatedValue_half_2000 updatedValue_keep_100)




section \<open>Rule evaluation\<close>

text \<open>
  C4. For every World and Rule: a guard that evaluates to false gives weight 0 whatever the
  Rule's Weight is, a guard that evaluates to true gives exactly the Rule's Weight, and an
  error of the guard's evaluation is returned as it is.
\<close>

theorem Evaluate_cases:
  "(Guard r w = Inr (BoolVal False) \<longrightarrow> Evaluate r w = Inr (Finite 0)) \<and>
   (Guard r w = Inr (BoolVal True) \<longrightarrow> Evaluate r w = Inr (Weight r)) \<and>
   (\<forall>err. Guard r w = Inl err \<longrightarrow> Evaluate r w = Inl (Failed err))"
  by (simp add: Evaluate_def Pass_def)

theorem Evaluate_cases_witness:
  "Guard putsch_rule poor_world = Inr (BoolVal False) \<and>
   Evaluate putsch_rule poor_world = Inr (Finite 0) \<and>
   Guard putsch_rule putsch_world = Inr (BoolVal True) \<and>
   Evaluate putsch_rule putsch_world = Inr (Weight putsch_rule) \<and>
   Guard putsch_rule bare_world = Inl (Error ''Money'') \<and>
   Evaluate putsch_rule bare_world = Inl (Failed (Error ''Money''))"
proof -
  have f: "Guard putsch_rule poor_world = Inr (BoolVal False)"
    by (simp add: putsch_rule_def putsch_guard_def poor_world_def entries_def)
  have t: "Guard putsch_rule putsch_world = Inr (BoolVal True)"
    by (simp add: putsch_rule_def putsch_guard_def putsch_world_def entries_def)
  have e: "Guard putsch_rule bare_world = Inl (Error ''Money'')"
    by (simp add: putsch_rule_def putsch_guard_def bare_world_def entries_def)
  from f t e Evaluate_cases [of putsch_rule poor_world] Evaluate_cases [of putsch_rule putsch_world]
    Evaluate_cases [of putsch_rule bare_world]
  show ?thesis by blast
qed

section \<open>The decision engine\<close>

text \<open>
  C2. The decision engine is deterministic: for a fixed World, Scenario and cap, two
  invocations of \<open>Decisions\<close> whose randomness sources replay the same sequence of draws
  return the same result, whatever the sources are otherwise.
\<close>

theorem Decisions_deterministic:
  assumes "\<forall>n. draws r1 st1 n = draws r2 st2 n"
  shows "fst (Decisions srt s r1 st1 w k) = fst (Decisions srt s r2 st2 w k)"
proof (cases "candidates_of (Rules s) w")
  case (Inl e)
  then show ?thesis by (simp add: Decisions_def)
next
  case (Inr cs)
  from assms have "draws r1 st1 (length (srt cs)) = draws r2 st2 (length (srt cs))" by blast
  then have "fst (sample r1 st1 (srt cs) k []) = fst (sample r2 st2 (srt cs) k [])"
    by (rule sample_draws)
  with Inr show ?thesis by (auto simp: Decisions_def split: prod.splits)
qed

theorem Decisions_deterministic_witness:
  "(\<forall>n. draws zero_rand () n = draws tick_rand 0 n) \<and>
   fst (Decisions insertionSort \<lparr>Rules = [putsch_rule]\<rparr> zero_rand () putsch_world 3) = Inr [make_putsch] \<and>
   fst (Decisions insertionSort \<lparr>Rules = [putsch_rule]\<rparr> tick_rand 0 putsch_world 3) = Inr [make_putsch]"
proof -
  have h: "\<forall>n. draws zero_rand () n = draws tick_rand 0 n"
    by (simp add: draws_zero_rand draws_tick_rand)
  from Decisions_deterministic [OF h, of insertionSort "\<lparr>Rules = [putsch_rule]\<rparr>" putsch_world 3] h
  show ?thesis by (simp add: run_putsch_zero)
qed

text \<open>
  C3. For every World, Scenario, randomness source and non-negative cap \<open>k\<close>, the list that
  \<open>Decisions\<close> returns has at most \<open>k + 1\<close> elements.
\<close>

theorem Decisions_length:
  assumes "0 \<le> sint k" and "fst (Decisions srt s r st w k) = Inr ds"
  shows "length ds \<le> nat (sint k) + 1"
proof -
  from assms(2) obtain cs where ds: "ds = fst (sample r st (srt cs) k [])"
    by (auto dest: Decisions_Inr)
  from assms(1) have "int (length ([] :: Decision list)) \<le> sint k" by simp
  then have "length (fst (sample r st (srt cs) k [])) \<le> nat (sint k) + 1"
    by (rule sample_length)
  with ds show ?thesis by simp
qed

theorem Decisions_length_witness:
  "0 \<le> sint (0 :: go_int) \<and>
   fst (Decisions insertionSort \<lparr>Rules = [quit_rule, putsch_rule]\<rparr> zero_rand () putsch_world 0)
     = Inr [quit_decision] \<and>
   length [quit_decision] \<le> nat (sint (0 :: go_int)) + 1"
proof -
  have a: "0 \<le> sint (0 :: go_int)" by simp
  have b: "fst (Decisions insertionSort \<lparr>Rules = [quit_rule, putsch_rule]\<rparr> zero_rand () putsch_world 0)
     = Inr [quit_decision]" by (simp add: run_two_cap0)
  from Decisions_length [OF a b] a b show ?thesis by blast
qed

text \<open>
  C5. If the evaluation of a Rule's guard fails with an error during a call of \<open>Decisions\<close>,
  the call returns a failure and no list of decisions, and draws nothing; the failure it
  returns is the error of the first guard that fails, every guard before it having
  evaluated to a bool.
\<close>

theorem Decisions_propagates_error:
  "(\<forall>rule \<in> set (Rules s). \<forall>err. Guard rule w = Inl err \<longrightarrow>
      (\<exists>f. Decisions srt s r st w k = (Inl f, st))) \<and>
   (\<forall>pre rule post err.
      Rules s = pre @ rule # post \<and> (\<forall>p \<in> set pre. \<exists>b. Guard p w = Inr (BoolVal b)) \<and>
      Guard rule w = Inl err \<longrightarrow>
      Decisions srt s r st w k = (Inl (Failed err), st))"
proof (intro conjI ballI allI impI)
  fix rule err
  assume in_rules: "rule \<in> set (Rules s)" and "Guard rule w = Inl err"
  then have "Evaluate rule w = Inl (Failed err)"
    by (simp add: Evaluate_def Pass_def)
  with in_rules have "\<exists>r \<in> set (Rules s). \<exists>e. Evaluate r w = Inl e"
    by blast
  then obtain f where "candidates_of (Rules s) w = Inl f"
    using candidates_of_Inl_iff by blast
  then show "\<exists>f. Decisions srt s r st w k = (Inl f, st)"
    by (simp add: Decisions_def)
next
  fix pre rule post err
  assume a: "Rules s = pre @ rule # post \<and> (\<forall>p \<in> set pre. \<exists>b. Guard p w = Inr (BoolVal b)) \<and>
      Guard rule w = Inl err"
  then have "Evaluate rule w = Inl (Failed err)"
    by (simp add: Evaluate_def Pass_def)
  moreover from a have "\<forall>p \<in> set pre. \<exists>x. Evaluate p w = Inr x"
    by (auto simp: Evaluate_def Pass_def)
  ultimately have "candidates_of (pre @ rule # post) w = Inl (Failed err)"
    by (rule candidates_of_fails)
  with a show "Decisions srt s r st w k = (Inl (Failed err), st)"
    by (simp add: Decisions_def)
qed

theorem Decisions_propagates_error_witness:
  "Rules \<lparr>Rules = [quit_rule, putsch_rule]\<rparr> = [quit_rule] @ putsch_rule # [] \<and>
   Guard quit_rule bare_world = Inr (BoolVal True) \<and>
   Guard putsch_rule bare_world = Inl (Error ''Money'') \<and>
   Decisions insertionSort \<lparr>Rules = [quit_rule, putsch_rule]\<rparr> zero_rand () bare_world 3
     = (Inl (Failed (Error ''Money'')), ())"
proof -
  have a: "Rules \<lparr>Rules = [quit_rule, putsch_rule]\<rparr> = [quit_rule] @ putsch_rule # []" by simp
  have b: "\<forall>p \<in> set [quit_rule]. \<exists>b. Guard p bare_world = Inr (BoolVal b)"
    by (auto simp: quit_rule_def)
  have c: "Guard putsch_rule bare_world = Inl (Error ''Money'')"
    by (simp add: putsch_rule_def putsch_guard_def bare_world_def entries_def)
  from Decisions_propagates_error
    [of "\<lparr>Rules = [quit_rule, putsch_rule]\<rparr>" bare_world insertionSort zero_rand "()" 3]
  have "Decisions insertionSort \<lparr>Rules = [quit_rule, putsch_rule]\<rparr> zero_rand () bare_world 3
     = (Inl (Failed (Error ''Money'')), ())"
    using a b c by blast
  moreover have "Guard quit_rule bare_world = Inr (BoolVal True)"
    by (simp add: quit_rule_def)
  ultimately show ?thesis using a c by simp
qed



text \<open>
  C10. Provided every draw lies in \<open>[0, 1)\<close>, every accepted candidate has a weight above
  0: the candidate of a Rule whose guard is false is never accepted, and a Decision that
  only such Rules carry is not in the list \<open>Decisions\<close> returns.
\<close>

theorem zero_weight_never_offered:
  assumes "\<forall>c. sort_contract srt c"
    and "\<forall>n. \<forall>x \<in> set (draws r st n). unit_draw x"
    and "fst (Decisions srt s r st w k) = Inr ds"
  shows "(\<exists>cs acc. candidates_of (Rules s) w = Inr cs \<and> subseq acc (srt cs) \<and>
            ds = map Candidate_Decision acc \<and>
            (\<forall>c \<in> set acc. f64_less (Finite 0) (Candidate_Weight c))) \<and>
         (\<forall>d. (\<forall>rule \<in> set (Rules s). Decision rule = d \<longrightarrow> Guard rule w = Inr (BoolVal False))
            \<longrightarrow> d \<notin> set ds)"
proof -
  from assms(3) obtain cs where cs: "candidates_of (Rules s) w = Inr cs"
    and ds: "ds = fst (sample r st (srt cs) k [])"
    by (auto dest: Decisions_Inr)
  from sample_accepts [of "srt cs" r st k "[]"] ds obtain acc where
    acc: "subseq acc (srt cs)" "ds = map Candidate_Decision acc"
      "\<forall>c \<in> set acc. \<exists>x \<in> set (draws r st (length (srt cs))). f64_less x (Candidate_Weight c)"
    by auto
  have pos: "f64_less (Finite 0) (Candidate_Weight c)" if "c \<in> set acc" for c
  proof -
    from acc(3) that obtain x where "x \<in> set (draws r st (length (srt cs)))"
      "f64_less x (Candidate_Weight c)" by blast
    with assms(2) show ?thesis by (blast intro: unit_draw_less)
  qed
  from assms(1) have "set (srt cs) = set cs"
    by (auto simp: sort_contract_def dest: mset_eq_setD)
  with acc(1) have sub: "set acc \<subseteq> set cs" by (auto dest: list_emb_set)
  have "d \<notin> set ds"
    if d: "\<forall>rule \<in> set (Rules s). Decision rule = d \<longrightarrow> Guard rule w = Inr (BoolVal False)" for d
  proof
    assume "d \<in> set ds"
    with acc(2) obtain c where c: "c \<in> set acc" "Candidate_Decision c = d" by auto
    with sub have "c \<in> set cs" by blast
    from candidates_of_origin [OF cs this] obtain rule where
      rule: "rule \<in> set (Rules s)" "Evaluate rule w = Inr (Candidate_Weight c)"
        "Candidate_Decision c = Decision rule" by blast
    with c d have "Guard rule w = Inr (BoolVal False)" by simp
    with Evaluate_weight [OF rule(2)] have "Candidate_Weight c = Finite 0" by auto
    with pos [OF c(1)] show False by simp
  qed
  with cs acc(1,2) pos show ?thesis by blast
qed

theorem zero_weight_never_offered_witness:
  "Guard putsch_rule poor_world = Inr (BoolVal False) \<and>
   Decision putsch_rule = make_putsch \<and> Decision quit_rule = quit_decision \<and>
   fst (Decisions insertionSort \<lparr>Rules = [putsch_rule, quit_rule]\<rparr> zero_rand () poor_world 3)
     = Inr [quit_decision] \<and>
   make_putsch \<notin> set [quit_decision]"
proof -
  have a: "\<forall>c. sort_contract insertionSort c"
    by (simp add: insertionSort_contract)
  have b: "\<forall>n. \<forall>x \<in> set (draws zero_rand () n). unit_draw x"
    by (simp add: draws_zero_rand unit_draw_def)
  have c: "fst (Decisions insertionSort \<lparr>Rules = [putsch_rule, quit_rule]\<rparr> zero_rand () poor_world 3)
     = Inr [quit_decision]"
    by (simp add: run_poor)
  have d: "\<forall>rule \<in> set (Rules \<lparr>Rules = [putsch_rule, quit_rule]\<rparr>).
      Decision rule = make_putsch \<longrightarrow> Guard rule poor_world = Inr (BoolVal False)"
    using make_putsch_not_quit
    by (simp add: Decision_quit_rule) (simp add: putsch_rule_def putsch_guard_def poor_world_def entries_def)
  from zero_weight_never_offered [OF a b c] d have "make_putsch \<notin> set [quit_decision]"
    by blast
  moreover have "Guard putsch_rule poor_world = Inr (BoolVal False)"
    by (simp add: putsch_rule_def putsch_guard_def poor_world_def entries_def)
  ultimately show ?thesis
    using c by (simp add: Decision_putsch_rule Decision_quit_rule)
qed

section \<open>World mutation\<close>

text \<open>
  C7. \<open>Apply\<close> touches only the entries the Change names: a resource, or a power, whose
  name is not a key of the Change's map for it keeps its value, and a Choice with an
  empty Change leaves the World as it is and returns nil.
\<close>

theorem Apply_frame:
  "(name \<notin> fst ` set (Change_Resources (Choice_Change c)) \<longrightarrow>
      entries (Resources (snd (Apply w c))) name = entries (Resources w) name) \<and>
   (name \<notin> fst ` set (Change_Powers (Choice_Change c)) \<longrightarrow>
      entries (Powers (snd (Apply w c))) name = entries (Powers w) name) \<and>
   (Change_Resources (Choice_Change c) = [] \<and> Change_Powers (Choice_Change c) = [] \<longrightarrow>
      Apply w c = (Inr None, w))"
proof (intro conjI impI)
  assume "name \<notin> fst ` set (Change_Resources (Choice_Change c))"
  then have "entries (snd (apply_entries (Resources w) (Change_Resources (Choice_Change c)))) name
      = entries (Resources w) name"
    by (rule apply_entries_frame)
  then show "entries (Resources (snd (Apply w c))) name = entries (Resources w) name"
    by (auto simp: Apply_def split: prod.splits option.splits)
next
  assume "name \<notin> fst ` set (Change_Powers (Choice_Change c))"
  then have "entries (snd (apply_entries (Powers w) (Change_Powers (Choice_Change c)))) name
      = entries (Powers w) name"
    by (rule apply_entries_frame)
  then show "entries (Powers (snd (Apply w c))) name = entries (Powers w) name"
    by (auto simp: Apply_def split: prod.splits option.splits)
next
  assume "Change_Resources (Choice_Change c) = [] \<and> Change_Powers (Choice_Change c) = []"
  then show "Apply w c = (Inr None, w)"
    by (simp add: Apply_def)
qed

theorem Apply_frame_witness:
  "''Military'' \<notin> fst ` set (Change_Powers (Choice_Change choice_A)) \<and>
   entries (Powers (snd (Apply putsch_world choice_A))) ''Military'' = Some 90 \<and>
   entries (Powers putsch_world) ''Military'' = Some 90 \<and>
   ''Popularity'' \<notin> fst ` set (Change_Resources (Choice_Change choice_A)) \<and>
   entries (Resources (snd (Apply putsch_world choice_A))) ''Popularity'' = None \<and>
   Change_Resources (Choice_Change quit_choice) = [] \<and>
   Change_Powers (Choice_Change quit_choice) = [] \<and>
   Apply putsch_world quit_choice = (Inr None, putsch_world)"
proof -
  have a: "''Military'' \<notin> fst ` set (Change_Powers (Choice_Change choice_A))"
    by (simp add: choice_A_def)
  have b: "''Popularity'' \<notin> fst ` set (Change_Resources (Choice_Change choice_A))"
    by (simp add: choice_A_def)
  have c: "Change_Resources (Choice_Change quit_choice) = [] \<and>
      Change_Powers (Choice_Change quit_choice) = []"
    by (simp add: quit_choice_def)
  have m: "entries (Powers putsch_world) ''Military'' = Some 90"
    by (simp add: putsch_world_def entries_def)
  have p: "entries (Resources putsch_world) ''Popularity'' = None"
    by (simp add: putsch_world_def entries_def)
  from Apply_frame [of "''Military''" choice_A putsch_world] a m
  have 1: "entries (Powers (snd (Apply putsch_world choice_A))) ''Military'' = Some 90"
    by simp
  from Apply_frame [of "''Popularity''" choice_A putsch_world] b p
  have 2: "entries (Resources (snd (Apply putsch_world choice_A))) ''Popularity'' = None"
    by simp
  from Apply_frame [of "''Money''" quit_choice putsch_world] c
  have 3: "Apply putsch_world quit_choice = (Inr None, putsch_world)"
    by blast
  from a b c m 1 2 3 show ?thesis by blast
qed

text \<open>
  C9. \<open>Apply\<close> is not idempotent: on the World of the example, applying Choice A (Money
  times 0.5) once leaves Money at 2000, applying it twice leaves it at 1000.
\<close>

theorem Apply_twice_differs:
  "entries (Resources (snd (Apply putsch_world choice_A))) ''Money'' = Some 2000 \<and>
   entries (Resources (snd (Apply (snd (Apply putsch_world choice_A)) choice_A))) ''Money'' = Some 1000 \<and>
   snd (Apply (snd (Apply putsch_world choice_A)) choice_A) \<noteq> snd (Apply putsch_world choice_A)"
proof -
  have once: "entries (Resources (snd (Apply putsch_world choice_A))) ''Money'' = Some 2000"
    by (simp add: Apply_choice_A entries_def)
  have twice: "entries (Resources (snd (Apply (snd (Apply putsch_world choice_A)) choice_A))) ''Money''
      = Some 1000"
    by (simp add: Apply_choice_A Apply_choice_A_twice entries_def)
  from once twice
  have "snd (Apply (snd (Apply putsch_world choice_A)) choice_A) \<noteq> snd (Apply putsch_world choice_A)"
    by auto
  with once twice show ?thesis by blast
qed




section \<open>The example end to end\<close>

text \<open>
  C8, as stated, fails: after Choice A the value of Legislation is not 110.
\<close>

theorem putsch_Legislation_counterexample:
  "entries (Powers (snd (Apply putsch_world choice_A))) ''Legislation'' \<noteq> Some 110"
  by (simp add: Apply_choice_A entries_def)

text \<open>
  C8, amended. On the World of the example, with the one rule and a source that always
  returns 0.0, \<open>Decisions\<close> offers "Make putsch" for every cap; applying Choice A gives
  Money = 2000, Legislation = 100 (0 times 10, plus 100) and leaves Military = 90; a half
  is rounded away from zero.
\<close>

theorem putsch_end_to_end:
  assumes "\<forall>c. sort_contract srt c"
  shows "Decisions srt \<lparr>Rules = [putsch_rule]\<rparr> zero_rand () putsch_world k = (Inr [make_putsch], ()) \<and>
    Apply putsch_world choice_A =
      (Inr None, \<lparr>Resources = Some [''Money'' \<mapsto> 2000],
                  Powers = Some [''Military'' \<mapsto> 90, ''Legislation'' \<mapsto> 100]\<rparr>) \<and>
    updatedValue 1 [Finite (1 / 2), Finite 0] = Inr 1 \<and>
    updatedValue (- 1) [Finite (1 / 2), Finite 0] = Inr (- 1)"
proof -
  from assms have "srt [\<lparr>Candidate_Weight = Finite 1, Candidate_Decision = make_putsch\<rparr>]
      = [\<lparr>Candidate_Weight = Finite 1, Candidate_Decision = make_putsch\<rparr>]"
    by (simp add: sort_contract_single)
  then have "Decisions srt \<lparr>Rules = [putsch_rule]\<rparr> zero_rand () putsch_world k = (Inr [make_putsch], ())"
    by (simp add: Decisions_def putsch_true zero_rand_def Decision_putsch_rule Let_def)
  then show ?thesis
    by (simp add: Apply_choice_A updatedValue_tie_up updatedValue_tie_down)
qed

theorem putsch_end_to_end_witness:
  "Decisions insertionSort \<lparr>Rules = [putsch_rule]\<rparr> zero_rand () putsch_world 3 = (Inr [make_putsch], ()) \<and>
   entries (Resources (snd (Apply putsch_world choice_A))) ''Money'' = Some 2000 \<and>
   entries (Powers (snd (Apply putsch_world choice_A))) ''Legislation'' = Some 100 \<and>
   entries (Powers (snd (Apply putsch_world choice_A))) ''Military'' = Some 90"
proof -
  have a: "\<forall>c. sort_contract insertionSort c"
    by (simp add: insertionSort_contract)
  from putsch_end_to_end [OF a, of 3] show ?thesis
    by (simp add: entries_def)
qed

end
